theory Spec2Isabelle
  imports Complex_Main
begin

section \<open>Data model\<close>

text \<open>
  A naive \<open>datetime\<close> is a number of microseconds on the server's wall clock;
  a \<open>timedelta\<close> is a difference of two of them, in microseconds.
\<close>

type_synonym datetime = int

type_synonym timedelta = int

text \<open>
  What \<open>datetime.fromisoformat\<close> returns: a naive value, or, for a text with
  a UTC offset, an aware one (wall clock and offset). \<open>datetime.now()\<close> is
  naive, and Python refuses to subtract an aware value from a naive one.
\<close>

datatype parsed_datetime = Naive datetime | Aware datetime int

text \<open>One row of table \<open>agents\<close> (app.py, \<open>init_db\<close>). Column \<open>id\<close> is \<open>row_id\<close>.\<close>

record agent_row =
  row_id :: nat
  name :: string
  last_heartbeat :: "string option"
  expected_interval_hours :: "int option"
  status :: string
  last_message :: "string option"
  created_at :: int

text \<open>One row of table \<open>heartbeat_log\<close>.\<close>

record log_row =
  log_id :: nat
  log_agent_name :: string
  log_status :: string
  log_message :: "string option"
  log_timestamp :: "string option"

text \<open>The body of a POST to \<open>/heartbeat\<close> (class \<open>HeartbeatRequest\<close>).\<close>

record HeartbeatRequest =
  agent_name :: string
  hb_status :: string
  message :: "string option"
  hb_expected_interval_hours :: "int option"

text \<open>What the notifier is asked to send: the arguments of
  \<open>send_error_alert\<close> and of \<open>send_timeout_alert\<close>.\<close>

datatype alert =
    ErrorAlert string "string option"
  | TimeoutAlert string string int

fun alert_agent :: "alert \<Rightarrow> string" where
  "alert_agent (ErrorAlert n m) = n"
| "alert_agent (TimeoutAlert n l k) = n"

text \<open>The exceptions the two modules raise or let through.\<close>

datatype exn =
    HTTPException nat
  | OverflowError
  | SlackApiError
  | TypeError
  | OtherException

text \<open>The effects of the hub, in the order the statements run.\<close>

datatype event =
    InsertOrReplaceAgent string
  | InsertLog string
  | UpdateStale string
  | Commit
  | Dispatch alert

text \<open>
  The database file and the record of effects. \<open>agents\<close> is kept in rowid
  order, the order of a table scan; \<open>agents_seq\<close> and \<open>log_seq\<close> are the
  AUTOINCREMENT counters.
\<close>

record hub =
  agents :: "agent_row list"
  agents_seq :: nat
  heartbeat_log :: "log_row list"
  log_seq :: nat
  trace :: "event list"

definition init_db :: hub where
  "init_db = \<lparr>agents = [], agents_seq = 0, heartbeat_log = [], log_seq = 0, trace = []\<rparr>"

text \<open>
  What the code takes from outside the repository: the sqlite3 adapter that
  stores a \<open>datetime\<close> as text; \<open>datetime.fromisoformat\<close> (\<open>None\<close> when it
  raises); the float \<open>total_seconds() / 3600\<close> of a \<open>timedelta\<close>, as the
  rational number that double is; and what happens when the Slack client
  is asked to deliver.
\<close>

datatype send_result = Sent | ApiError | Failure

record world =
  adapt_datetime :: "datetime \<Rightarrow> string"
  fromisoformat :: "string \<Rightarrow> parsed_datetime option"
  float_hours :: "timedelta \<Rightarrow> rat"
  slack_client :: "alert \<Rightarrow> send_result"

section \<open>slack_notifier.py\<close>

text \<open>\<open>_send_message\<close>: a \<open>SlackApiError\<close> is printed and raised again; anything
  else the client raises passes through.\<close>

definition send_message :: "world \<Rightarrow> alert \<Rightarrow> hub \<Rightarrow> exn option \<times> hub" where
  "send_message W a h =
     (case slack_client W a of
        Sent \<Rightarrow> None
      | ApiError \<Rightarrow> Some SlackApiError
      | Failure \<Rightarrow> Some OtherException,
      h\<lparr>trace := trace h @ [Dispatch a]\<rparr>)"

text \<open>Both senders wrap \<open>_send_message\<close> in \<open>except SlackApiError\<close>.\<close>

definition swallow_api_error :: "exn option \<times> hub \<Rightarrow> exn option \<times> hub" where
  "swallow_api_error r =
     (case r of
        (Some SlackApiError, h) \<Rightarrow> (None, h)
      | (e, h) \<Rightarrow> (e, h))"

definition send_error_alert ::
  "world \<Rightarrow> string \<Rightarrow> string option \<Rightarrow> hub \<Rightarrow> exn option \<times> hub" where
  "send_error_alert W n error_message h =
     swallow_api_error (send_message W (ErrorAlert n error_message) h)"

definition send_timeout_alert ::
  "world \<Rightarrow> string \<Rightarrow> string \<Rightarrow> int \<Rightarrow> hub \<Rightarrow> exn option \<times> hub" where
  "send_timeout_alert W n last_hb hours_overdue h =
     swallow_api_error (send_message W (TimeoutAlert n last_hb hours_overdue) h)"

section \<open>app.py: receive_heartbeat\<close>

text \<open>
  The values sqlite3 binds to an INTEGER parameter: \<open>None\<close>, or a Python
  \<open>int\<close> of 64 bits, signed. For any other \<open>int\<close>, \<open>cursor.execute\<close> raises
  \<open>OverflowError\<close> and the statement does not run.
\<close>

definition sqlite_integer :: "int option \<Rightarrow> bool" where
  "sqlite_integer v =
     (case v of None \<Rightarrow> True | Some k \<Rightarrow> - (2 ^ 63) \<le> k \<and> k < 2 ^ 63)"

text \<open>
  \<open>INSERT OR REPLACE INTO agents (name, last_heartbeat,
  expected_interval_hours, status, last_message)\<close>: a row that has the same
  \<open>name\<close> (UNIQUE) is deleted, and a new row is inserted with the next
  AUTOINCREMENT id and the default \<open>created_at\<close>, CURRENT_TIMESTAMP.
\<close>

definition insert_or_replace_agent ::
  "int \<Rightarrow> string \<Rightarrow> string option \<Rightarrow> int option \<Rightarrow> string \<Rightarrow> string option \<Rightarrow> hub
     \<Rightarrow> exn + hub" where
  "insert_or_replace_agent current_timestamp n hb interval st msg h =
     (if \<not> sqlite_integer interval then Inl OverflowError
      else Inr
       (h\<lparr>agents := filter (\<lambda>r. name r \<noteq> n) (agents h) @
            [\<lparr>row_id = Suc (agents_seq h), name = n, last_heartbeat = hb,
              expected_interval_hours = interval, status = st, last_message = msg,
              created_at = current_timestamp\<rparr>],
          agents_seq := Suc (agents_seq h),
          trace := trace h @ [InsertOrReplaceAgent n]\<rparr>))"

definition insert_log ::
  "string \<Rightarrow> string \<Rightarrow> string option \<Rightarrow> string option \<Rightarrow> hub \<Rightarrow> hub" where
  "insert_log n st msg ts h =
     h\<lparr>heartbeat_log := heartbeat_log h @
          [\<lparr>log_id = Suc (log_seq h), log_agent_name = n, log_status = st,
            log_message = msg, log_timestamp = ts\<rparr>],
       log_seq := Suc (log_seq h),
       trace := trace h @ [InsertLog n]\<rparr>"

definition commit :: "hub \<Rightarrow> hub" where
  "commit h = h\<lparr>trace := trace h @ [Commit]\<rparr>"

text \<open>The acknowledgement: the agent's name and the server's \<open>now\<close>.\<close>

datatype response = Received string datetime

text \<open>
  \<open>receive_heartbeat\<close>, with \<open>now\<close> the value of \<open>datetime.now()\<close> and
  \<open>current_timestamp\<close> the database's clock when the row is inserted. The
  result is the exception that leaves the handler, or the response; the
  hub is returned in both cases, since what was committed stays. An
  exception of the first INSERT leaves the handler before anything is
  written.
\<close>

definition receive_heartbeat ::
  "world \<Rightarrow> datetime \<Rightarrow> int \<Rightarrow> HeartbeatRequest \<Rightarrow> hub \<Rightarrow> (exn + response) \<times> hub" where
  "receive_heartbeat W now current_timestamp heartbeat h =
     (if hb_status heartbeat \<notin> set [''success'', ''error'']
      then (Inl (HTTPException 400), h)
      else
        (case insert_or_replace_agent current_timestamp (agent_name heartbeat)
                (Some (adapt_datetime W now)) (hb_expected_interval_hours heartbeat)
                (hb_status heartbeat) (message heartbeat) h of
           Inl e \<Rightarrow> (Inl e, h)
         | Inr h1 \<Rightarrow>
             let h2 = insert_log (agent_name heartbeat) (hb_status heartbeat)
                        (message heartbeat) (Some (adapt_datetime W now)) h1;
                 h3 = commit h2
             in if hb_status heartbeat = ''error''
                then (case send_error_alert W (agent_name heartbeat) (message heartbeat) h3 of
                        (Some e, h4) \<Rightarrow> (Inl e, h4)
                      | (None, h4) \<Rightarrow> (Inr (Received (agent_name heartbeat) now), h4))
                else (Inr (Received (agent_name heartbeat) now), h3)))"

section \<open>watchdog.py\<close>

text \<open>\<open>UPDATE agents SET status = 'stale' WHERE name = ?\<close>.\<close>

definition update_stale :: "string \<Rightarrow> hub \<Rightarrow> hub" where
  "update_stale n h =
     h\<lparr>agents := map (\<lambda>r. if name r = n then r\<lparr>status := ''stale''\<rparr> else r) (agents h),
       trace := trace h @ [UpdateStale n]\<rparr>"

text \<open>\<open>int(hours_overdue)\<close>: Python's \<open>int\<close> of a float truncates towards zero.\<close>

definition int_hours :: "rat \<Rightarrow> int" where
  "int_hours x = (if 0 \<le> x then \<lfloor>x\<rfloor> else \<lceil>x\<rceil>)"

text \<open>
  The body of the \<open>for\<close> loop of \<open>check_all_agents\<close> on one fetched row
  \<open>(agent_name, last_heartbeat_str, expected_interval, status)\<close>, with
  \<open>now\<close> the value \<open>datetime.now()\<close> returns in this iteration. \<open>continue\<close>
  is \<open>(None, h)\<close>. Two statements raise \<open>TypeError\<close> outside any \<open>try\<close>:
  the subtraction, for an aware \<open>last_heartbeat\<close>, and the comparison of
  the float with \<open>None\<close>. Python compares a float with an \<open>int\<close> exactly.
\<close>

definition check_agent ::
  "world \<Rightarrow> datetime \<Rightarrow> string \<times> string option \<times> int option \<times> string \<Rightarrow> hub
     \<Rightarrow> exn option \<times> hub" where
  "check_agent W now row h =
     (case row of (n, last_heartbeat_str, expected_interval, st) \<Rightarrow>
        (case last_heartbeat_str of
           None \<Rightarrow> (None, h)
         | Some s \<Rightarrow>
             if s = [] then (None, h)
             else
               (case fromisoformat W s of
                  None \<Rightarrow> (None, h)
                | Some d \<Rightarrow>
                    (case d of
                       Aware t off \<Rightarrow> (Some TypeError, h)
                     | Naive last_hb \<Rightarrow>
                         (case expected_interval of
                            None \<Rightarrow> (Some TypeError, h)
                          | Some k \<Rightarrow>
                              if float_hours W (now - last_hb) > of_int k
                              then (case send_timeout_alert W n s
                                           (int_hours (float_hours W (now - last_hb))) h of
                                      (Some e, h1) \<Rightarrow> (Some e, h1)
                                    | (None, h1) \<Rightarrow> (None, commit (update_stale n h1)))
                              else (None, h))))))"

text \<open>The \<open>for\<close> loop: an exception in one iteration ends the loop.\<close>

fun check_rows ::
  "world \<Rightarrow> (string \<Rightarrow> datetime) \<Rightarrow> (string \<times> string option \<times> int option \<times> string) list
     \<Rightarrow> hub \<Rightarrow> exn option \<times> hub" where
  "check_rows W clock [] h = (None, h)"
| "check_rows W clock (row # rows) h =
     (case check_agent W (clock (fst row)) row h of
        (Some e, h1) \<Rightarrow> (Some e, h1)
      | (None, h1) \<Rightarrow> check_rows W clock rows h1)"

text \<open>\<open>SELECT name, last_heartbeat, expected_interval_hours, status FROM agents\<close>.\<close>

definition select_agents :: "hub \<Rightarrow> (string \<times> string option \<times> int option \<times> string) list" where
  "select_agents h =
     map (\<lambda>r. (name r, last_heartbeat r, expected_interval_hours r, status r)) (agents h)"

text \<open>
  \<open>check_all_agents\<close>: \<open>clock n\<close> is the time read while the row of agent
  \<open>n\<close> is evaluated.
\<close>

definition check_all_agents :: "world \<Rightarrow> (string \<Rightarrow> datetime) \<Rightarrow> hub \<Rightarrow> exn option \<times> hub" where
  "check_all_agents W clock h = check_rows W clock (select_agents h) h"

text \<open>
  One turn of the loop of \<open>Watchdog.start\<close>: \<open>try: await
  self.check_all_agents()\<close>, \<open>except Exception\<close>: the exception is printed
  and the loop goes on, with what the check had written.
\<close>

definition watchdog_tick :: "world \<Rightarrow> (string \<Rightarrow> datetime) \<Rightarrow> hub \<Rightarrow> hub" where
  "watchdog_tick W clock h =
     (case check_all_agents W clock h of
        (None, h1) \<Rightarrow> h1
      | (Some e, h1) \<Rightarrow> h1)"

text \<open>
  The loop of \<open>Watchdog.start\<close>, for the ticks that run before \<open>stop\<close>: one
  clock per tick.
\<close>

fun start :: "world \<Rightarrow> (string \<Rightarrow> datetime) list \<Rightarrow> hub \<Rightarrow> hub" where
  "start W [] h = h"
| "start W (clock # clocks) h = start W clocks (watchdog_tick W clock h)"

section \<open>Runs of the hub\<close>

text \<open>The two operations that write to the database, and a sequence of them.\<close>

datatype op =
    Heartbeat world datetime int HeartbeatRequest
  | Sweep world "string \<Rightarrow> datetime"

fun run :: "op list \<Rightarrow> hub \<Rightarrow> hub" where
  "run [] h = h"
| "run (Heartbeat W now current_timestamp heartbeat # ops) h =
     run ops (snd (receive_heartbeat W now current_timestamp heartbeat h))"
| "run (Sweep W clock # ops) h = run ops (watchdog_tick W clock h)"

section \<open>Observations on the record of effects\<close>

text \<open>The alerts handed to the notifier, in order.\<close>

fun alerts_of :: "event list \<Rightarrow> alert list" where
  "alerts_of [] = []"
| "alerts_of (Dispatch a # es) = a # alerts_of es"
| "alerts_of (e # es) = alerts_of es"

text \<open>The events a step added to the record.\<close>

definition new_events :: "hub \<Rightarrow> hub \<Rightarrow> event list" where
  "new_events h h' = drop (length (trace h)) (trace h')"

text \<open>\<open>a\<close> occurs, and before the first \<open>b\<close>, which occurs too.\<close>

definition occurs_before :: "event \<Rightarrow> event \<Rightarrow> event list \<Rightarrow> bool" where
  "occurs_before a b es = (a \<in> set (takeWhile (\<lambda>e. e \<noteq> b) es) \<and> b \<in> set es)"

text \<open>
  The timeout alert a fetched row calls for at time \<open>now\<close>, if any: its
  \<open>last_heartbeat\<close> is a non-empty text that parses to a naive value, its
  interval is a number, and the float of the hours since exceeds it.
\<close>

definition due_alert ::
  "world \<Rightarrow> datetime \<Rightarrow> string \<times> string option \<times> int option \<times> string \<Rightarrow> alert option" where
  "due_alert W now row =
     (case row of (n, last_heartbeat_str, expected_interval, st) \<Rightarrow>
        (case last_heartbeat_str of
           None \<Rightarrow> None
         | Some s \<Rightarrow>
             if s = [] then None
             else
               (case fromisoformat W s of
                  None \<Rightarrow> None
                | Some d \<Rightarrow>
                    (case d of
                       Aware t off \<Rightarrow> None
                     | Naive last_hb \<Rightarrow>
                         (case expected_interval of
                            None \<Rightarrow> None
                          | Some k \<Rightarrow>
                              if float_hours W (now - last_hb) > of_int k
                              then Some (TimeoutAlert n s
                                     (int_hours (float_hours W (now - last_hb))))
                              else None)))))"

text \<open>A stored \<open>last_heartbeat\<close> the sweep cannot use: NULL, empty, or not ISO text.\<close>

definition unusable :: "world \<Rightarrow> string option \<Rightarrow> bool" where
  "unusable W v = (case v of None \<Rightarrow> True | Some s \<Rightarrow> s = [] \<or> fromisoformat W s = None)"

text \<open>What a row adds to the record of effects when its evaluation completes.\<close>

definition row_events ::
  "world \<Rightarrow> (string \<Rightarrow> datetime) \<Rightarrow> string \<times> string option \<times> int option \<times> string \<Rightarrow> event list" where
  "row_events W clock row =
     (case due_alert W (clock (fst row)) row of
        None \<Rightarrow> []
      | Some a \<Rightarrow> [Dispatch a, UpdateStale (fst row), Commit])"

text \<open>Every row has reported: its status is not \<open>unknown\<close> and its
  \<open>last_heartbeat\<close> is not NULL.\<close>

definition registry_ok :: "hub \<Rightarrow> bool" where
  "registry_ok h = (\<forall>r \<in> set (agents h). status r \<noteq> ''unknown'' \<and> last_heartbeat r \<noteq> None)"

section \<open>Example data\<close>

text \<open>
  A world that knows two instants, midnight and three hours later, whose
  hours are the exact quotient (at the gaps used below, 7200 and 7500
  seconds, the double has the same integer part and lies on the same side
  of 1), and whose Slack client delivers.
\<close>

definition example_world :: world where
  "example_world =
     \<lparr>adapt_datetime = (\<lambda>t. if t = 0 then ''1970-01-01 00:00:00'' else ''1970-01-01 03:00:00''),
      fromisoformat = (\<lambda>s. if s = ''1970-01-01 00:00:00'' then Some (Naive 0)
                           else if s = ''1970-01-01 03:00:00'' then Some (Naive 10800000000)
                           else None),
      float_hours = (\<lambda>d. of_int d / 3600000000),
      slack_client = (\<lambda>a. Sent)\<rparr>"

text \<open>The same world with a Slack client that answers every call with an API error.\<close>

definition slack_down_world :: world where
  "slack_down_world = example_world\<lparr>slack_client := (\<lambda>a. ApiError)\<rparr>"

text \<open>The same world with no network: the client raises something that is
  not a \<open>SlackApiError\<close>.\<close>

definition network_down_world :: world where
  "network_down_world = example_world\<lparr>slack_client := (\<lambda>a. Failure)\<rparr>"

definition example_report :: "string \<Rightarrow> string \<Rightarrow> HeartbeatRequest" where
  "example_report n st =
     \<lparr>agent_name = n, hb_status = st, message = Some ''done'',
      hb_expected_interval_hours = Some 1\<rparr>"



text \<open>A database with one agent, reported at midnight and since marked stale.\<close>

definition example_hub :: hub where
  "example_hub =
     \<lparr>agents = [\<lparr>row_id = 1, name = ''a'', last_heartbeat = Some ''1970-01-01 00:00:00'',
                  expected_interval_hours = Some 1, status = ''stale'',
                  last_message = Some ''done'', created_at = 0\<rparr>],
      agents_seq = 1,
      heartbeat_log = [\<lparr>log_id = 1, log_agent_name = ''a'', log_status = ''success'',
                  log_message = Some ''done'', log_timestamp = Some ''1970-01-01 00:00:00''\<rparr>],
      log_seq = 1,
      trace = []\<rparr>"

text \<open>The database after agent \<open>a\<close> reported success at midnight.\<close>

definition fresh_hub :: hub where
  "fresh_hub = run [Heartbeat example_world 0 0 (example_report ''a'' ''success'')] init_db"

text \<open>The database after \<open>a\<close> and then \<open>b\<close> reported success at midnight, each
  with an interval of one hour.\<close>

definition two_agent_hub :: hub where
  "two_agent_hub =
     run [Heartbeat example_world 0 0 (example_report ''a'' ''success''),
          Heartbeat example_world 0 0 (example_report ''b'' ''success'')] init_db"

text \<open>A database in which the \<open>last_heartbeat\<close> of agent \<open>g\<close> is not ISO text.\<close>

definition unusable_hub :: hub where
  "unusable_hub =
     \<lparr>agents = [\<lparr>row_id = 1, name = ''g'', last_heartbeat = Some ''yesterday'',
                  expected_interval_hours = Some 1, status = ''success'',
                  last_message = None, created_at = 0\<rparr>,
                \<lparr>row_id = 2, name = ''a'', last_heartbeat = Some ''1970-01-01 00:00:00'',
                  expected_interval_hours = Some 1, status = ''success'',
                  last_message = Some ''done'', created_at = 0\<rparr>],
      agents_seq = 2, heartbeat_log = [], log_seq = 0, trace = []\<rparr>"

section \<open>Facts about the notifier and the heartbeat endpoint\<close>

lemma alerts_of_append: "alerts_of (xs @ ys) = alerts_of xs @ alerts_of ys"
  by (induction xs rule: alerts_of.induct) simp_all

lemma receive_heartbeat_hub:
  assumes "hb_status hb = ''success'' \<or> hb_status hb = ''error''"
    and "sqlite_integer (hb_expected_interval_hours hb)"
  shows "snd (receive_heartbeat W now ts hb h) =
     \<lparr>agents = filter (\<lambda>r. name r \<noteq> agent_name hb) (agents h) @
          [\<lparr>row_id = Suc (agents_seq h), name = agent_name hb,
            last_heartbeat = Some (adapt_datetime W now),
            expected_interval_hours = hb_expected_interval_hours hb,
            status = hb_status hb, last_message = message hb, created_at = ts\<rparr>],
      agents_seq = Suc (agents_seq h),
      heartbeat_log = heartbeat_log h @
          [\<lparr>log_id = Suc (log_seq h), log_agent_name = agent_name hb,
            log_status = hb_status hb, log_message = message hb,
            log_timestamp = Some (adapt_datetime W now)\<rparr>],
      log_seq = Suc (log_seq h),
      trace = trace h @ [InsertOrReplaceAgent (agent_name hb), InsertLog (agent_name hb), Commit] @
          (if hb_status hb = ''error''
           then [Dispatch (ErrorAlert (agent_name hb) (message hb))] else [])\<rparr>"
  using assms
  by (auto simp: receive_heartbeat_def Let_def commit_def insert_log_def
      insert_or_replace_agent_def send_error_alert_def send_message_def swallow_api_error_def
      split: send_result.splits)

lemma receive_heartbeat_overflow:
  assumes "\<not> sqlite_integer (hb_expected_interval_hours hb)"
  shows "snd (receive_heartbeat W now ts hb h) = h"
  using assms by (simp add: receive_heartbeat_def insert_or_replace_agent_def)

lemma filter_replaced:
  "filter (\<lambda>r. name r = n) (filter (\<lambda>r. name r \<noteq> n) xs @ [x]) = (if name x = n then [x] else [])"
  by (induction xs) auto


section \<open>The heartbeat endpoint\<close>

text \<open>
  C2, as amended. For every report with status \<open>success\<close> or \<open>error\<close> whose
  interval the database can bind (null, or within 64 bits, signed), the
  endpoint's effects are, in this order: the write of the agent row, the
  append to the heartbeat log, the commit of both, and, only for status
  \<open>error\<close>, the dispatch of the error alert. The registry write is
  committed before the dispatch is attempted.
\<close>

theorem receive_heartbeat_effect_order:
  assumes "hb_status hb = ''success'' \<or> hb_status hb = ''error''"
    and "sqlite_integer (hb_expected_interval_hours hb)"
  shows "trace (snd (receive_heartbeat W now ts hb h)) =
     trace h @ [InsertOrReplaceAgent (agent_name hb), InsertLog (agent_name hb), Commit] @
       (if hb_status hb = ''error''
        then [Dispatch (ErrorAlert (agent_name hb) (message hb))] else [])"
  by (simp only: receive_heartbeat_hub [OF assms] hub.simps)

theorem receive_heartbeat_effect_order_witness:
  "trace (snd (receive_heartbeat example_world 0 0 (example_report ''a'' ''error'') init_db)) =
     [InsertOrReplaceAgent ''a'', InsertLog ''a'', Commit,
      Dispatch (ErrorAlert ''a'' (Some ''done''))]"
  using receive_heartbeat_effect_order
    [of "example_report ''a'' ''error''" example_world 0 0 init_db]
  by (simp add: example_report_def init_db_def sqlite_integer_def)

text \<open>
  C2 as stated fails: on an error report to the empty database the log
  entry is not appended before the agent row is written.
\<close>

theorem log_before_registry_counterexample:
  "\<not> occurs_before (InsertLog ''a'') (InsertOrReplaceAgent ''a'')
       (trace (snd (receive_heartbeat example_world 0 0 (example_report ''a'' ''error'') init_db)))"
  by (simp add: receive_heartbeat_hub example_report_def init_db_def occurs_before_def
      sqlite_integer_def)




text \<open>
  C5. For every report with status \<open>error\<close> that the endpoint accepts (the
  database can bind its interval), the effects are the write of the agent
  row, one append to the heartbeat log, the commit and one dispatch:
  exactly one alert is handed to the notifier, the error alert of this
  agent; exactly one entry is appended to the heartbeat log; and the
  registry afterwards shows status \<open>error\<close> for the agent, whatever its
  status was before and whatever the Slack client does.
\<close>

theorem error_report_effects:
  assumes "hb_status hb = ''error''"
    and "sqlite_integer (hb_expected_interval_hours hb)"
  shows "new_events h (snd (receive_heartbeat W now ts hb h)) =
           [InsertOrReplaceAgent (agent_name hb), InsertLog (agent_name hb), Commit,
            Dispatch (ErrorAlert (agent_name hb) (message hb))] \<and>
         alerts_of (trace (snd (receive_heartbeat W now ts hb h))) =
           alerts_of (trace h) @ [ErrorAlert (agent_name hb) (message hb)] \<and>
         heartbeat_log (snd (receive_heartbeat W now ts hb h)) =
           heartbeat_log h @
             [\<lparr>log_id = Suc (log_seq h), log_agent_name = agent_name hb,
               log_status = ''error'', log_message = message hb,
               log_timestamp = Some (adapt_datetime W now)\<rparr>] \<and>
         map status (filter (\<lambda>r. name r = agent_name hb)
           (agents (snd (receive_heartbeat W now ts hb h)))) = [''error'']"
  using assms
  by (simp add: receive_heartbeat_hub alerts_of_append filter_replaced new_events_def)

theorem error_report_effects_witness:
  "new_events example_hub (snd (receive_heartbeat example_world 10800000000 3
      (example_report ''a'' ''error'') example_hub)) =
     [InsertOrReplaceAgent ''a'', InsertLog ''a'', Commit,
      Dispatch (ErrorAlert ''a'' (Some ''done''))] \<and>
   alerts_of (trace (snd (receive_heartbeat example_world 10800000000 3
      (example_report ''a'' ''error'') example_hub))) = [ErrorAlert ''a'' (Some ''done'')] \<and>
   length (heartbeat_log (snd (receive_heartbeat example_world 10800000000 3
      (example_report ''a'' ''error'') example_hub))) = 2 \<and>
   map status (filter (\<lambda>r. name r = ''a'')
      (agents (snd (receive_heartbeat example_world 10800000000 3
         (example_report ''a'' ''error'') example_hub)))) = [''error'']"
  using error_report_effects
    [of "example_report ''a'' ''error''" example_hub example_world 10800000000 3]
  by (simp add: example_report_def example_hub_def sqlite_integer_def)

text \<open>
  C6, as amended. The endpoint rejects a report with HTTP status 400 if and
  only if the report's status is neither \<open>success\<close> nor \<open>error\<close>; a
  rejected report leaves the registry and the heartbeat log as they were
  and dispatches no alert. The agent's name is not examined.
\<close>

theorem receive_heartbeat_rejects_iff_status:
  "(fst (receive_heartbeat W now ts hb h) = Inl (HTTPException 400)
      \<longleftrightarrow> hb_status hb \<noteq> ''success'' \<and> hb_status hb \<noteq> ''error'') \<and>
   (fst (receive_heartbeat W now ts hb h) = Inl (HTTPException 400)
      \<longrightarrow> snd (receive_heartbeat W now ts hb h) = h)"
  by (auto simp: receive_heartbeat_def Let_def insert_or_replace_agent_def send_error_alert_def
      send_message_def swallow_api_error_def split: send_result.splits)

theorem receive_heartbeat_rejects_iff_status_witness:
  "fst (receive_heartbeat example_world 0 0 (example_report ''a'' ''stale'') init_db)
     = Inl (HTTPException 400) \<and>
   snd (receive_heartbeat example_world 0 0 (example_report ''a'' ''stale'') init_db) = init_db"
  using receive_heartbeat_rejects_iff_status
    [of example_world 0 0 "example_report ''a'' ''stale''" init_db]
  by (simp add: example_report_def)

text \<open>
  C6 as stated fails: a report whose agent name is the empty string is not
  rejected, and the registry gets a row for the empty name.
\<close>

theorem empty_agent_name_counterexample:
  "fst (receive_heartbeat example_world 0 0 (example_report '''' ''success'') init_db)
     \<noteq> Inl (HTTPException 400) \<and>
   map name (agents (snd (receive_heartbeat example_world 0 0
      (example_report '''' ''success'') init_db))) = ['''']"
  by (simp add: receive_heartbeat_def Let_def example_report_def init_db_def commit_def
      insert_log_def insert_or_replace_agent_def sqlite_integer_def)

text \<open>
  C9. The claim asks that a report for a name the registry already holds
  leaves the row's id and \<open>created_at\<close> as they were. The code does not:
  agent \<open>a\<close> has the row with id 1 created at time 0, and after a second
  report, stored when the database's clock reads 3, its row has id 2 and
  \<open>created_at\<close> 3.
\<close>

theorem upsert_resets_id_and_created_at:
  "map (\<lambda>r. (row_id r, created_at r)) (filter (\<lambda>r. name r = ''a'') (agents example_hub)) =
     [(1, 0)] \<and>
   map (\<lambda>r. (row_id r, created_at r))
     (filter (\<lambda>r. name r = ''a'')
        (agents (snd (receive_heartbeat example_world 10800000000 3
           (example_report ''a'' ''success'') example_hub)))) = [(2, 3)]"
  by (simp add: receive_heartbeat_hub filter_replaced example_report_def example_hub_def
      sqlite_integer_def)

section \<open>Facts about the sweep\<close>

lemma due_alert_agent: "due_alert W now row = Some a \<Longrightarrow> alert_agent a = fst row"
  by (auto simp: due_alert_def split: prod.splits option.splits if_splits parsed_datetime.splits)

lemma due_alert_status: "due_alert W now (n, l, k, st) = due_alert W now (n, l, k, st')"
  by (simp add: due_alert_def)

lemma due_alert_unusable: "unusable W l \<Longrightarrow> due_alert W now (n, l, k, st) = None"
  by (auto simp: due_alert_def unusable_def split: option.splits)

lemma check_agent_unusable: "unusable W l \<Longrightarrow> check_agent W now (n, l, k, st) h = (None, h)"
  by (auto simp: check_agent_def unusable_def split: option.splits)

lemma check_agent_None:
  assumes "check_agent W now row h = (None, h')"
  shows "h' = (case due_alert W now row of
                 None \<Rightarrow> h
               | Some a \<Rightarrow> commit (update_stale (fst row) (h\<lparr>trace := trace h @ [Dispatch a]\<rparr>)))"
  using assms
  by (auto simp: check_agent_def due_alert_def send_timeout_alert_def send_message_def
      swallow_api_error_def
      split: prod.splits option.splits if_splits send_result.splits parsed_datetime.splits)

lemma check_agent_Some:
  assumes "check_agent W now row h = (Some e, h')"
  shows "(e = TypeError \<and> h' = h) \<or>
         (\<exists>a. due_alert W now row = Some a \<and> e = OtherException \<and>
              h' = h\<lparr>trace := trace h @ [Dispatch a]\<rparr>)"
  using assms
  by (auto simp: check_agent_def due_alert_def send_timeout_alert_def send_message_def
      swallow_api_error_def
      split: prod.splits option.splits if_splits send_result.splits parsed_datetime.splits)

lemma check_agent_effect:
  assumes "check_agent W now row h = (e, h')"
  shows "h' = h \<or>
         (\<exists>a. due_alert W now row = Some a \<and>
              (h' = h\<lparr>trace := trace h @ [Dispatch a]\<rparr> \<or>
               h' = commit (update_stale (fst row) (h\<lparr>trace := trace h @ [Dispatch a]\<rparr>))))"
proof (cases e)
  case None
  with assms show ?thesis
    by (cases "due_alert W now row") (auto dest!: check_agent_None)
next
  case (Some x)
  with assms show ?thesis by (auto dest!: check_agent_Some)
qed

lemma check_agent_frame:
  assumes "check_agent W now row h = (e, h')" "fst row \<noteq> n \<or> unusable W (fst (snd row))"
  shows "filter (\<lambda>r. name r = n) (agents h') = filter (\<lambda>r. name r = n) (agents h) \<and>
         (\<exists>evs. trace h' = trace h @ evs \<and> (\<forall>a \<in> set (alerts_of evs). alert_agent a \<noteq> n))"
proof (cases "unusable W (fst (snd row))")
  case True
  then have "check_agent W now row h = (None, h)"
    by (cases row) (simp add: check_agent_unusable)
  with assms show ?thesis by simp
next
  case False
  with assms have ne: "fst row \<noteq> n" by simp
  have keep: "filter (\<lambda>r. name r = n)
      (map (\<lambda>r. if name r = fst row then r\<lparr>status := ''stale''\<rparr> else r) xs)
      = filter (\<lambda>r. name r = n) xs" for xs :: "agent_row list"
    using ne by (induction xs) auto
  from check_agent_effect [OF assms(1)] show ?thesis
  proof (elim disjE exE conjE)
    assume "h' = h" then show ?thesis by simp
  next
    fix a assume "due_alert W now row = Some a" "h' = h\<lparr>trace := trace h @ [Dispatch a]\<rparr>"
    then show ?thesis using ne by (auto dest: due_alert_agent)
  next
    fix a assume "due_alert W now row = Some a"
      "h' = commit (update_stale (fst row) (h\<lparr>trace := trace h @ [Dispatch a]\<rparr>))"
    then show ?thesis using ne keep
      by (auto simp: commit_def update_stale_def dest: due_alert_agent)
  qed
qed

lemma check_rows_frame:
  assumes "check_rows W c rows h = (e, h')"
    "\<forall>row \<in> set rows. fst row = n \<longrightarrow> unusable W (fst (snd row))"
  shows "filter (\<lambda>r. name r = n) (agents h') = filter (\<lambda>r. name r = n) (agents h) \<and>
         (\<exists>evs. trace h' = trace h @ evs \<and> (\<forall>a \<in> set (alerts_of evs). alert_agent a \<noteq> n))"
  using assms
proof (induction rows arbitrary: h)
  case Nil
  then show ?case by simp
next
  case (Cons row rows)
  obtain e1 h1 where step: "check_agent W (c (fst row)) row h = (e1, h1)"
    by (cases "check_agent W (c (fst row)) row h")
  from Cons.prems(2) have "fst row \<noteq> n \<or> unusable W (fst (snd row))" by auto
  from check_agent_frame [OF step this]
  obtain evs1 where f1: "filter (\<lambda>r. name r = n) (agents h1) = filter (\<lambda>r. name r = n) (agents h)"
    and t1: "trace h1 = trace h @ evs1" and a1: "\<forall>a \<in> set (alerts_of evs1). alert_agent a \<noteq> n"
    by blast
  show ?case
  proof (cases e1)
    case (Some x)
    with step Cons.prems(1) have "h' = h1" by simp
    with f1 t1 a1 show ?thesis by blast
  next
    case None
    with step Cons.prems(1) have "check_rows W c rows h1 = (e, h')" by simp
    from Cons.IH [OF this] Cons.prems(2)
    obtain evs2 where f2: "filter (\<lambda>r. name r = n) (agents h') = filter (\<lambda>r. name r = n) (agents h1)"
      and t2: "trace h' = trace h1 @ evs2" and a2: "\<forall>a \<in> set (alerts_of evs2). alert_agent a \<noteq> n"
      by auto
    have "trace h' = trace h @ (evs1 @ evs2)" using t1 t2 by simp
    moreover have "\<forall>a \<in> set (alerts_of (evs1 @ evs2)). alert_agent a \<noteq> n"
      using a1 a2 by (auto simp: alerts_of_append)
    ultimately show ?thesis using f1 f2 by metis
  qed
qed

lemma unusable_rows:
  assumes "\<forall>r \<in> set (agents h). name r = n \<longrightarrow> unusable W (last_heartbeat r)"
  shows "\<forall>row \<in> set (select_agents h). fst row = n \<longrightarrow> unusable W (fst (snd row))"
  using assms by (auto simp: select_agents_def)

lemma watchdog_tick_snd: "watchdog_tick W c h = snd (check_all_agents W c h)"
  by (simp add: watchdog_tick_def split: prod.splits option.splits)

lemma tick_frame:
  assumes "\<forall>r \<in> set (agents h). name r = n \<longrightarrow> unusable W (last_heartbeat r)"
  shows "filter (\<lambda>r. name r = n) (agents (watchdog_tick W c h)) = filter (\<lambda>r. name r = n) (agents h) \<and>
         (\<exists>evs. trace (watchdog_tick W c h) = trace h @ evs \<and>
            (\<forall>a \<in> set (alerts_of evs). alert_agent a \<noteq> n))"
proof -
  obtain e h' where r: "check_rows W c (select_agents h) h = (e, h')"
    by (cases "check_rows W c (select_agents h) h")
  from check_rows_frame [OF r unusable_rows [OF assms]] r show ?thesis
    by (simp add: watchdog_tick_snd check_all_agents_def)
qed

lemma start_frame:
  assumes "\<forall>r \<in> set (agents h). name r = n \<longrightarrow> unusable W (last_heartbeat r)"
  shows "filter (\<lambda>r. name r = n) (agents (start W clocks h)) = filter (\<lambda>r. name r = n) (agents h) \<and>
         (\<exists>evs. trace (start W clocks h) = trace h @ evs \<and>
            (\<forall>a \<in> set (alerts_of evs). alert_agent a \<noteq> n))"
  using assms
proof (induction clocks arbitrary: h)
  case Nil
  then show ?case by simp
next
  case (Cons c clocks)
  from tick_frame [OF Cons.prems, of c]
  obtain evs1 where f1: "filter (\<lambda>r. name r = n) (agents (watchdog_tick W c h)) =
      filter (\<lambda>r. name r = n) (agents h)"
    and t1: "trace (watchdog_tick W c h) = trace h @ evs1"
    and a1: "\<forall>a \<in> set (alerts_of evs1). alert_agent a \<noteq> n"
    by blast
  have "set (filter (\<lambda>r. name r = n) (agents (watchdog_tick W c h))) =
      set (filter (\<lambda>r. name r = n) (agents h))" using f1 by simp
  then have "\<forall>r \<in> set (agents (watchdog_tick W c h)). name r = n \<longrightarrow> unusable W (last_heartbeat r)"
    using Cons.prems by auto
  from Cons.IH [OF this]
  obtain evs2 where f2: "filter (\<lambda>r. name r = n) (agents (start W clocks (watchdog_tick W c h))) =
      filter (\<lambda>r. name r = n) (agents (watchdog_tick W c h))"
    and t2: "trace (start W clocks (watchdog_tick W c h)) = trace (watchdog_tick W c h) @ evs2"
    and a2: "\<forall>a \<in> set (alerts_of evs2). alert_agent a \<noteq> n"
    by blast
  have "trace (start W (c # clocks) h) = trace h @ (evs1 @ evs2)" using t1 t2 by simp
  moreover have "\<forall>a \<in> set (alerts_of (evs1 @ evs2)). alert_agent a \<noteq> n"
    using a1 a2 by (auto simp: alerts_of_append)
  ultimately show ?case using f1 f2 by (metis start.simps(2))
qed

lemma check_rows_None:
  assumes "check_rows W c rows h = (None, h')"
  shows "trace h' = trace h @ concat (map (row_events W c) rows) \<and>
     agents h' =
       map (\<lambda>r. if \<exists>row \<in> set rows. fst row = name r \<and> due_alert W (c (fst row)) row \<noteq> None
                then r\<lparr>status := ''stale''\<rparr> else r) (agents h)"
  using assms
proof (induction rows arbitrary: h)
  case Nil
  then show ?case by simp
next
  case (Cons row rows)
  obtain e1 h1 where step: "check_agent W (c (fst row)) row h = (e1, h1)"
    by (cases "check_agent W (c (fst row)) row h")
  with Cons.prems have e1: "e1 = None" and rest: "check_rows W c rows h1 = (None, h')"
    by (auto split: option.splits)
  note h1 = check_agent_None [OF step [unfolded e1]]
  note IH = Cons.IH [OF rest]
  show ?case
  proof (cases "due_alert W (c (fst row)) row")
    case None
    with h1 have "h1 = h" by simp
    from None have "row_events W c row = []" by (simp add: row_events_def)
    with IH \<open>h1 = h\<close> None show ?thesis by simp
  next
    case (Some a)
    with h1 have h1': "h1 = commit (update_stale (fst row) (h\<lparr>trace := trace h @ [Dispatch a]\<rparr>))"
      by simp
    have tr: "trace h1 = trace h @ [Dispatch a, UpdateStale (fst row), Commit]"
      by (simp add: h1' commit_def update_stale_def)
    have ag: "agents h1 = map (\<lambda>r. if name r = fst row then r\<lparr>status := ''stale''\<rparr> else r) (agents h)"
      by (simp add: h1' commit_def update_stale_def)
    have re: "row_events W c row = [Dispatch a, UpdateStale (fst row), Commit]"
      using Some by (simp add: row_events_def)
    from IH tr re have "trace h' = trace h @ concat (map (row_events W c) (row # rows))"
      by simp
    moreover from IH ag Some have "agents h' =
       map (\<lambda>r. if \<exists>row' \<in> set (row # rows). fst row' = name r \<and> due_alert W (c (fst row')) row' \<noteq> None
                then r\<lparr>status := ''stale''\<rparr> else r) (agents h)"
      by (auto simp: o_def)
    ultimately show ?thesis by simp
  qed
qed

lemma alerts_of_row_events:
  "filter (\<lambda>a. alert_agent a = n) (alerts_of (row_events W c row)) =
     (if fst row = n then (case due_alert W (c (fst row)) row of None \<Rightarrow> [] | Some a \<Rightarrow> [a]) else [])"
proof (cases "due_alert W (c (fst row)) row")
  case None
  then show ?thesis by (auto simp: row_events_def)
next
  case (Some a)
  from due_alert_agent [OF this] Some show ?thesis by (auto simp: row_events_def)
qed

lemma alerts_for_agent:
  assumes "distinct (map fst rows)" "row \<in> set rows"
  shows "filter (\<lambda>a. alert_agent a = fst row) (alerts_of (concat (map (row_events W c) rows))) =
     (case due_alert W (c (fst row)) row of None \<Rightarrow> [] | Some a \<Rightarrow> [a])"
  using assms
proof (induction rows)
  case Nil
  then show ?case by simp
next
  case (Cons x rows)
  show ?case
  proof (cases "x = row")
    case True
    with Cons.prems have "\<forall>y \<in> set rows. fst y \<noteq> fst row" by (auto simp: image_iff)
    then have "filter (\<lambda>a. alert_agent a = fst row) (alerts_of (concat (map (row_events W c) rows))) = []"
      by (induction rows) (simp_all add: alerts_of_append alerts_of_row_events)
    with True show ?thesis by (simp add: alerts_of_append alerts_of_row_events)
  next
    case False
    with Cons.prems have "row \<in> set rows" "fst x \<noteq> fst row" "distinct (map fst rows)" by force+
    with Cons.IH show ?thesis by (simp add: alerts_of_append alerts_of_row_events)
  qed
qed

lemma select_agents_names: "map fst (select_agents h) = map name (agents h)"
  by (simp add: select_agents_def)

lemma tick_alerts_overdue:
  assumes d: "distinct (map name (agents h))" and r: "r \<in> set (agents h)"
    and lh: "last_heartbeat r = Some s" "s \<noteq> []" "fromisoformat W s = Some (Naive t)"
    and iv: "expected_interval_hours r = Some k"
    and od: "float_hours W (c (name r) - t) > of_int k"
    and run: "check_all_agents W c h = (None, h')"
  shows "filter (\<lambda>a. alert_agent a = name r) (alerts_of (new_events h h')) =
           [TimeoutAlert (name r) s (int_hours (float_hours W (c (name r) - t)))]"
    and "r\<lparr>status := ''stale''\<rparr> \<in> set (agents h')"
    and "map name (agents h') = map name (agents h)"
proof -
  let ?row = "(name r, last_heartbeat r, expected_interval_hours r, status r)"
  have due: "due_alert W (c (name r)) ?row = Some (TimeoutAlert (name r) s (int_hours (float_hours W (c (name r) - t))))"
    using lh iv od by (simp add: due_alert_def)
  have mem: "?row \<in> set (select_agents h)" using r by (auto simp: select_agents_def)
  from run have cr: "check_rows W c (select_agents h) h = (None, h')"
    by (simp add: check_all_agents_def)
  note cn = check_rows_None [OF cr]
  from cn have "new_events h h' = concat (map (row_events W c) (select_agents h))"
    by (simp add: new_events_def)
  with alerts_for_agent [of "select_agents h" ?row W c] d mem due
  show "filter (\<lambda>a. alert_agent a = name r) (alerts_of (new_events h h')) =
           [TimeoutAlert (name r) s (int_hours (float_hours W (c (name r) - t)))]"
    by (simp add: select_agents_names)
  from cn have ag: "agents h' =
       map (\<lambda>r. if \<exists>row \<in> set (select_agents h). fst row = name r \<and> due_alert W (c (fst row)) row \<noteq> None
                then r\<lparr>status := ''stale''\<rparr> else r) (agents h)" by simp
  have "\<exists>row \<in> set (select_agents h). fst row = name r \<and> due_alert W (c (fst row)) row \<noteq> None"
    using mem due by force
  with ag r show "r\<lparr>status := ''stale''\<rparr> \<in> set (agents h')" by force
  from ag show "map name (agents h') = map name (agents h)" by (simp add: o_def)
qed

lemma filter_distinct_name:
  fixes xs :: "agent_row list"
  shows "distinct (map name xs) \<Longrightarrow> x \<in> set xs \<Longrightarrow> filter (\<lambda>y. name y = name x) xs = [x]"
  by (induction xs) (auto simp: filter_empty_conv image_iff)

lemma check_rows_append:
  "check_rows W c pre h = (None, h0) \<Longrightarrow> check_rows W c (pre @ rest) h = check_rows W c rest h0"
proof (induction pre arbitrary: h)
  case Nil
  then show ?case by simp
next
  case (Cons row pre)
  obtain e1 h1 where step: "check_agent W (c (fst row)) row h = (e1, h1)"
    by (cases "check_agent W (c (fst row)) row h")
  with Cons.prems have "e1 = None" "check_rows W c pre h1 = (None, h0)"
    by (auto split: option.splits)
  with Cons.IH step show ?case by simp
qed

lemma registry_ok_check_agent:
  assumes "check_agent W now row h = (e, h')" "registry_ok h"
  shows "registry_ok h'"
  using check_agent_effect [OF assms(1)] assms(2)
  by (auto simp: registry_ok_def commit_def update_stale_def)

lemma registry_ok_check_rows:
  assumes "check_rows W c rows h = (e, h')" "registry_ok h"
  shows "registry_ok h'"
  using assms
proof (induction rows arbitrary: h)
  case Nil
  then show ?case by simp
next
  case (Cons row rows)
  obtain e1 h1 where step: "check_agent W (c (fst row)) row h = (e1, h1)"
    by (cases "check_agent W (c (fst row)) row h")
  note ok1 = registry_ok_check_agent [OF step Cons.prems(2)]
  show ?case
  proof (cases e1)
    case None
    with step Cons.prems(1) have "check_rows W c rows h1 = (e, h')" by simp
    from Cons.IH [OF this ok1] show ?thesis .
  next
    case (Some x)
    with step Cons.prems(1) have "h' = h1" by simp
    with ok1 show ?thesis by simp
  qed
qed

lemma registry_ok_tick: "registry_ok h \<Longrightarrow> registry_ok (watchdog_tick W c h)"
  using registry_ok_check_rows [of W c "select_agents h" h]
  by (cases "check_rows W c (select_agents h) h")
     (simp add: watchdog_tick_snd check_all_agents_def)

lemma registry_ok_heartbeat:
  assumes "registry_ok h"
  shows "registry_ok (snd (receive_heartbeat W now ts hb h))"
proof (cases "hb_status hb = ''success'' \<or> hb_status hb = ''error''")
  case True
  then have ne: "hb_status hb \<noteq> ''unknown''" by auto
  show ?thesis
  proof (cases "sqlite_integer (hb_expected_interval_hours hb)")
    case True
    with assms ne show ?thesis
      by (auto simp: receive_heartbeat_hub [OF \<open>hb_status hb = ''success'' \<or> hb_status hb = ''error''\<close> True]
          registry_ok_def)
  next
    case False
    with assms show ?thesis by (simp add: receive_heartbeat_overflow)
  qed
next
  case False
  then show ?thesis using assms by (simp add: receive_heartbeat_def)
qed

lemma registry_ok_run: "registry_ok h \<Longrightarrow> registry_ok (run ops h)"
proof (induction ops arbitrary: h)
  case Nil
  then show ?case by simp
next
  case (Cons x ops)
  then show ?case
    by (cases x) (simp_all add: registry_ok_heartbeat registry_ok_tick)
qed

section \<open>Facts about the example data\<close>

lemmas sweep_defs = check_all_agents_def select_agents_def check_agent_def
  send_timeout_alert_def send_message_def swallow_api_error_def commit_def update_stale_def
  int_hours_def new_events_def

lemmas heartbeat_defs = receive_heartbeat_def Let_def insert_or_replace_agent_def insert_log_def
  send_error_alert_def init_db_def example_report_def sqlite_integer_def

lemma floor_example: "\<lfloor>25 / 12 :: rat\<rfloor> = 2"
  by (rule floor_unique) simp_all

lemma fresh_hub_eq:
  "fresh_hub =
     \<lparr>agents = [\<lparr>row_id = 1, name = ''a'', last_heartbeat = Some ''1970-01-01 00:00:00'',
                  expected_interval_hours = Some 1, status = ''success'',
                  last_message = Some ''done'', created_at = 0\<rparr>],
      agents_seq = 1,
      heartbeat_log = [\<lparr>log_id = 1, log_agent_name = ''a'', log_status = ''success'',
                  log_message = Some ''done'', log_timestamp = Some ''1970-01-01 00:00:00''\<rparr>],
      log_seq = 1,
      trace = [InsertOrReplaceAgent ''a'', InsertLog ''a'', Commit]\<rparr>"
  by (simp add: fresh_hub_def heartbeat_defs commit_def example_world_def)

lemma two_agent_hub_eq:
  "two_agent_hub =
     \<lparr>agents = [\<lparr>row_id = 1, name = ''a'', last_heartbeat = Some ''1970-01-01 00:00:00'',
                  expected_interval_hours = Some 1, status = ''success'',
                  last_message = Some ''done'', created_at = 0\<rparr>,
                \<lparr>row_id = 2, name = ''b'', last_heartbeat = Some ''1970-01-01 00:00:00'',
                  expected_interval_hours = Some 1, status = ''success'',
                  last_message = Some ''done'', created_at = 0\<rparr>],
      agents_seq = 2,
      heartbeat_log = [\<lparr>log_id = 1, log_agent_name = ''a'', log_status = ''success'',
                  log_message = Some ''done'', log_timestamp = Some ''1970-01-01 00:00:00''\<rparr>,
                 \<lparr>log_id = 2, log_agent_name = ''b'', log_status = ''success'',
                  log_message = Some ''done'', log_timestamp = Some ''1970-01-01 00:00:00''\<rparr>],
      log_seq = 2,
      trace = [InsertOrReplaceAgent ''a'', InsertLog ''a'', Commit,
               InsertOrReplaceAgent ''b'', InsertLog ''b'', Commit]\<rparr>"
  by (simp add: two_agent_hub_def heartbeat_defs commit_def example_world_def)

lemma fresh_tick1:
  "check_all_agents example_world (\<lambda>n. 7200000000) fresh_hub =
     (None, fresh_hub\<lparr>agents := [(hd (agents fresh_hub))\<lparr>status := ''stale''\<rparr>],
        trace := trace fresh_hub @
          [Dispatch (TimeoutAlert ''a'' ''1970-01-01 00:00:00'' 2), UpdateStale ''a'', Commit]\<rparr>)"
  by (simp add: fresh_hub_eq sweep_defs example_world_def)

lemma fresh_tick2:
  "check_all_agents example_world (\<lambda>n. 7500000000)
     (snd (check_all_agents example_world (\<lambda>n. 7200000000) fresh_hub)) =
     (None, fresh_hub\<lparr>agents := [(hd (agents fresh_hub))\<lparr>status := ''stale''\<rparr>],
        trace := trace fresh_hub @
          [Dispatch (TimeoutAlert ''a'' ''1970-01-01 00:00:00'' 2), UpdateStale ''a'', Commit,
           Dispatch (TimeoutAlert ''a'' ''1970-01-01 00:00:00'' 2), UpdateStale ''a'', Commit]\<rparr>)"
  by (simp add: fresh_tick1) (simp add: fresh_hub_eq sweep_defs example_world_def floor_example)

lemma two_agent_rows:
  "select_agents two_agent_hub =
     [] @ (''a'', Some ''1970-01-01 00:00:00'', Some 1, ''success'') #
       [(''b'', Some ''1970-01-01 00:00:00'', Some 1, ''success'')]"
  by (simp add: two_agent_hub_eq select_agents_def)

lemma two_agent_network_down:
  "check_agent network_down_world 7200000000
     (''a'', Some ''1970-01-01 00:00:00'', Some 1, ''success'') two_agent_hub =
   (Some OtherException,
    two_agent_hub\<lparr>trace := trace two_agent_hub @
      [Dispatch (TimeoutAlert ''a'' ''1970-01-01 00:00:00'' 2)]\<rparr>)"
  by (simp add: sweep_defs network_down_world_def example_world_def)

lemma due_alert_example:
  "due_alert (example_world\<lparr>slack_client := f\<rparr>) 7200000000
     (n, Some ''1970-01-01 00:00:00'', Some 1, st) =
   Some (TimeoutAlert n ''1970-01-01 00:00:00'' 2)"
  by (simp add: due_alert_def example_world_def int_hours_def)

section \<open>The watchdog\<close>

text \<open>
  C1, as amended. For every agent that is overdue (its last heartbeat
  parses to a naive timestamp and the hours since, as the float the code
  computes, exceed its expected interval), a sweep tick that completes
  marks it stale and dispatches exactly one timeout alert for it, whether
  or not its status is already \<open>stale\<close>: given an agent with an expected
  interval of one hour whose last heartbeat is two hours old, the first
  tick marks it stale and dispatches exactly one timeout alert, and a
  second consecutive tick with no report in between dispatches exactly
  one more timeout alert for it.
\<close>

theorem overdue_agent_alerted_on_every_tick:
  assumes "distinct (map name (agents h))" and "r \<in> set (agents h)"
    and "last_heartbeat r = Some s" and "s \<noteq> []" and "fromisoformat W s = Some (Naive t)"
    and "expected_interval_hours r = Some k"
    and "float_hours W (c1 (name r) - t) > of_int k"
    and "float_hours W (c2 (name r) - t) > of_int k"
    and "check_all_agents W c1 h = (None, h1)" and "check_all_agents W c2 h1 = (None, h2)"
  shows "filter (\<lambda>a. alert_agent a = name r) (alerts_of (new_events h h1)) =
           [TimeoutAlert (name r) s (int_hours (float_hours W (c1 (name r) - t)))] \<and>
         map status (filter (\<lambda>x. name x = name r) (agents h1)) = [''stale''] \<and>
         filter (\<lambda>a. alert_agent a = name r) (alerts_of (new_events h1 h2)) =
           [TimeoutAlert (name r) s (int_hours (float_hours W (c2 (name r) - t)))]"
proof -
  note t1 = tick_alerts_overdue [OF assms(1-7) assms(9)]
  let ?r = "r\<lparr>status := ''stale''\<rparr>"
  have d1: "distinct (map name (agents h1))" using t1(3) assms(1) by simp
  have lh: "last_heartbeat ?r = Some s" using assms(3) by simp
  have iv: "expected_interval_hours ?r = Some k" using assms(6) by simp
  have od: "float_hours W (c2 (name ?r) - t) > of_int k" using assms(8) by simp
  have "filter (\<lambda>a. alert_agent a = name ?r) (alerts_of (new_events h1 h2)) =
           [TimeoutAlert (name ?r) s (int_hours (float_hours W (c2 (name ?r) - t)))]"
    by (rule tick_alerts_overdue(1) [OF d1 t1(2) lh assms(4) assms(5) iv od assms(10)])
  moreover have "filter (\<lambda>x. name x = name r) (agents h1) = [?r]"
    using filter_distinct_name [OF d1 t1(2)] by simp
  ultimately show ?thesis using t1(1) by simp
qed

theorem overdue_agent_alerted_on_every_tick_witness:
  "filter (\<lambda>a. alert_agent a = ''a'')
     (alerts_of (new_events fresh_hub
        (snd (check_all_agents example_world (\<lambda>n. 7200000000) fresh_hub)))) =
     [TimeoutAlert ''a'' ''1970-01-01 00:00:00'' 2] \<and>
   map status (filter (\<lambda>x. name x = ''a'')
     (agents (snd (check_all_agents example_world (\<lambda>n. 7200000000) fresh_hub)))) = [''stale''] \<and>
   filter (\<lambda>a. alert_agent a = ''a'')
     (alerts_of (new_events (snd (check_all_agents example_world (\<lambda>n. 7200000000) fresh_hub))
        (snd (check_all_agents example_world (\<lambda>n. 7500000000)
           (snd (check_all_agents example_world (\<lambda>n. 7200000000) fresh_hub)))))) =
     [TimeoutAlert ''a'' ''1970-01-01 00:00:00'' 2]"
proof -
  let ?r = "hd (agents fresh_hub)"
  let ?h1 = "snd (check_all_agents example_world (\<lambda>n. 7200000000) fresh_hub)"
  let ?h2 = "snd (check_all_agents example_world (\<lambda>n. 7500000000) ?h1)"
  have a1: "distinct (map name (agents fresh_hub))" by (simp add: fresh_hub_eq)
  have a2: "?r \<in> set (agents fresh_hub)" by (simp add: fresh_hub_eq)
  have a3: "last_heartbeat ?r = Some ''1970-01-01 00:00:00''" by (simp add: fresh_hub_eq)
  have a4: "''1970-01-01 00:00:00'' \<noteq> []" by simp
  have a5: "fromisoformat example_world ''1970-01-01 00:00:00'' = Some (Naive 0)"
    by (simp add: example_world_def)
  have a6: "expected_interval_hours ?r = Some 1" by (simp add: fresh_hub_eq)
  have a7: "float_hours example_world ((\<lambda>n. 7200000000) (name ?r) - 0) > of_int 1"
    by (simp add: example_world_def)
  have a8: "float_hours example_world ((\<lambda>n. 7500000000) (name ?r) - 0) > of_int 1"
    by (simp add: example_world_def)
  have a9: "check_all_agents example_world (\<lambda>n. 7200000000) fresh_hub = (None, ?h1)"
    by (simp add: fresh_tick1)
  have a10: "check_all_agents example_world (\<lambda>n. 7500000000) ?h1 = (None, ?h2)"
    by (simp add: fresh_tick2)
  have n: "name ?r = ''a''" by (simp add: fresh_hub_eq)
  from overdue_agent_alerted_on_every_tick [OF a1 a2 a3 a4 a5 a6 a7 a8 a9 a10]
  show ?thesis by (simp add: n int_hours_def example_world_def floor_example)
qed

text \<open>
  C1 as stated fails: after the first tick has marked agent \<open>a\<close> stale, the
  second tick, five minutes later and with no report in between,
  dispatches an alert again.
\<close>

theorem second_tick_alerts_again_counterexample:
  "map status (agents (run [Sweep example_world (\<lambda>n. 7200000000)] fresh_hub)) = [''stale''] \<and>
   alerts_of (new_events (run [Sweep example_world (\<lambda>n. 7200000000)] fresh_hub)
      (run [Sweep example_world (\<lambda>n. 7200000000), Sweep example_world (\<lambda>n. 7500000000)]
         fresh_hub)) \<noteq> []"
  by (simp add: watchdog_tick_snd fresh_tick1 fresh_tick2 [simplified fresh_tick1 snd_conv])
     (simp add: fresh_hub_eq new_events_def)

text \<open>
  C3, as amended. For every fetched row that is overdue (its last heartbeat
  parses to a naive timestamp and the hours since, as the float the code
  computes, exceed the expected interval; the status is not consulted),
  the sweep first calls the notifier with the timeout alert (agent name,
  stored last heartbeat, the float's integer part) and only then sets the
  agent's status to \<open>stale\<close> and commits; when the notifier raises
  something other than a Slack API error, the status is not set.
\<close>

theorem sweep_alerts_then_marks_stale:
  assumes "s \<noteq> []" and "fromisoformat W s = Some (Naive t)"
    and "float_hours W (now - t) > of_int k"
  shows "check_agent W now (n, Some s, Some k, st) h =
     (if slack_client W (TimeoutAlert n s (int_hours (float_hours W (now - t)))) = Failure
      then (Some OtherException,
            h\<lparr>trace := trace h @
                [Dispatch (TimeoutAlert n s (int_hours (float_hours W (now - t))))]\<rparr>)
      else (None,
            h\<lparr>agents := map (\<lambda>r. if name r = n then r\<lparr>status := ''stale''\<rparr> else r) (agents h),
              trace := trace h @
                [Dispatch (TimeoutAlert n s (int_hours (float_hours W (now - t)))),
                 UpdateStale n, Commit]\<rparr>))"
  using assms
  by (auto simp: check_agent_def send_timeout_alert_def send_message_def swallow_api_error_def
      commit_def update_stale_def split: send_result.splits)

theorem sweep_alerts_then_marks_stale_witness:
  "check_agent example_world 7200000000
     (''a'', Some ''1970-01-01 00:00:00'', Some 1, ''success'') fresh_hub =
   (None, fresh_hub\<lparr>agents := [(hd (agents fresh_hub))\<lparr>status := ''stale''\<rparr>],
      trace := trace fresh_hub @
        [Dispatch (TimeoutAlert ''a'' ''1970-01-01 00:00:00'' 2), UpdateStale ''a'', Commit]\<rparr>)"
proof -
  have a1: "''1970-01-01 00:00:00'' \<noteq> []" by simp
  have a2: "fromisoformat example_world ''1970-01-01 00:00:00'' = Some (Naive 0)"
    by (simp add: example_world_def)
  have a3: "float_hours example_world (7200000000 - 0) > of_int 1"
    by (simp add: example_world_def)
  from sweep_alerts_then_marks_stale [OF a1 a2 a3, of "''a''" "''success''" fresh_hub]
  show ?thesis by (simp add: fresh_hub_eq example_world_def int_hours_def)
qed

text \<open>
  C3 as stated fails: in the sweep of the database where \<open>a\<close> is overdue,
  the update to \<open>stale\<close> does not come before the dispatch of the alert.
\<close>

theorem stale_before_alert_counterexample:
  "\<not> occurs_before (UpdateStale ''a'') (Dispatch (TimeoutAlert ''a'' ''1970-01-01 00:00:00'' 2))
       (trace (snd (check_all_agents example_world (\<lambda>n. 7200000000) fresh_hub)))"
  by (simp add: fresh_tick1) (simp add: fresh_hub_eq occurs_before_def)

text \<open>
  C7, as amended. If the evaluation of one agent raises an exception, the
  sweep ends at that agent with that exception: the remaining rows of the
  snapshot are not evaluated in that tick. The loop of \<open>start\<close> catches the
  exception and goes on with the next tick, from the state the failed tick
  left. Only a Slack API error during the dispatch is caught for the single
  agent: that agent is marked stale and the sweep goes on with the
  remaining rows.
\<close>

theorem sweep_stops_and_loop_goes_on:
  "(select_agents h = pre @ row # post \<and> check_rows W c pre h = (None, h0) \<and>
    check_agent W (c (fst row)) row h0 = (Some e, h')
      \<longrightarrow> check_all_agents W c h = (Some e, h') \<and>
           start W (c # clocks) h = start W clocks h') \<and>
   (due_alert W (c n) (n, l, k, st) = Some a \<and> slack_client W a = ApiError
      \<longrightarrow> check_rows W c ((n, l, k, st) # rest) g =
           check_rows W c rest (commit (update_stale n (g\<lparr>trace := trace g @ [Dispatch a]\<rparr>))))"
proof (intro conjI impI)
  assume a: "select_agents h = pre @ row # post \<and> check_rows W c pre h = (None, h0) \<and>
    check_agent W (c (fst row)) row h0 = (Some e, h')"
  then have "check_rows W c (pre @ row # post) h = (Some e, h')"
    by (simp add: check_rows_append)
  with a show "check_all_agents W c h = (Some e, h')"
    by (simp add: check_all_agents_def)
  then show "start W (c # clocks) h = start W clocks h'"
    by (simp add: watchdog_tick_def)
next
  assume a: "due_alert W (c n) (n, l, k, st) = Some a \<and> slack_client W a = ApiError"
  then have "check_agent W (c n) (n, l, k, st) g =
      (None, commit (update_stale n (g\<lparr>trace := trace g @ [Dispatch a]\<rparr>)))"
    by (auto simp: due_alert_def check_agent_def send_timeout_alert_def send_message_def
        swallow_api_error_def split: option.splits if_splits parsed_datetime.splits)
  then show "check_rows W c ((n, l, k, st) # rest) g =
      check_rows W c rest (commit (update_stale n (g\<lparr>trace := trace g @ [Dispatch a]\<rparr>)))"
    by simp
qed

theorem sweep_stops_and_loop_goes_on_witness:
  "check_all_agents network_down_world (\<lambda>n. 7200000000) two_agent_hub =
     (Some OtherException,
      two_agent_hub\<lparr>trace := trace two_agent_hub @
        [Dispatch (TimeoutAlert ''a'' ''1970-01-01 00:00:00'' 2)]\<rparr>) \<and>
   start network_down_world [\<lambda>n. 7200000000, \<lambda>n. 7500000000] two_agent_hub =
     start network_down_world [\<lambda>n. 7500000000]
       (two_agent_hub\<lparr>trace := trace two_agent_hub @
          [Dispatch (TimeoutAlert ''a'' ''1970-01-01 00:00:00'' 2)]\<rparr>) \<and>
   check_rows slack_down_world (\<lambda>n. 7200000000)
     ((''a'', Some ''1970-01-01 00:00:00'', Some 1, ''success'') #
        [(''b'', Some ''1970-01-01 00:00:00'', Some 1, ''success'')]) two_agent_hub =
     check_rows slack_down_world (\<lambda>n. 7200000000)
       [(''b'', Some ''1970-01-01 00:00:00'', Some 1, ''success'')]
       (commit (update_stale ''a'' (two_agent_hub\<lparr>trace := trace two_agent_hub @
          [Dispatch (TimeoutAlert ''a'' ''1970-01-01 00:00:00'' 2)]\<rparr>)))"
proof -
  have a1: "check_rows network_down_world (\<lambda>n. 7200000000) [] two_agent_hub =
      (None, two_agent_hub)" by simp
  have a2: "check_agent network_down_world ((\<lambda>n. 7200000000)
        (fst (''a'', Some ''1970-01-01 00:00:00'', Some (1::int), ''success'')))
      (''a'', Some ''1970-01-01 00:00:00'', Some 1, ''success'') two_agent_hub =
      (Some OtherException,
       two_agent_hub\<lparr>trace := trace two_agent_hub @
         [Dispatch (TimeoutAlert ''a'' ''1970-01-01 00:00:00'' 2)]\<rparr>)"
    using two_agent_network_down by simp
  have b1: "due_alert slack_down_world ((\<lambda>n. 7200000000) ''a'')
      (''a'', Some ''1970-01-01 00:00:00'', Some 1, ''success'') =
      Some (TimeoutAlert ''a'' ''1970-01-01 00:00:00'' 2)"
    by (simp add: slack_down_world_def due_alert_example)
  have b2: "slack_client slack_down_world (TimeoutAlert ''a'' ''1970-01-01 00:00:00'' 2) = ApiError"
    by (simp add: slack_down_world_def)
  from sweep_stops_and_loop_goes_on
    [where W = network_down_world and c = "\<lambda>n. 7200000000" and pre = "[]"
       and h = two_agent_hub and ?h0.0 = two_agent_hub
       and row = "(''a'', Some ''1970-01-01 00:00:00'', Some 1, ''success'')"
       and e = OtherException
       and h' = "two_agent_hub\<lparr>trace := trace two_agent_hub @
         [Dispatch (TimeoutAlert ''a'' ''1970-01-01 00:00:00'' 2)]\<rparr>"
       and post = "[(''b'', Some ''1970-01-01 00:00:00'', Some 1, ''success'')]"
       and clocks = "[\<lambda>n. 7500000000]"]
    two_agent_rows a1 a2
  have "check_all_agents network_down_world (\<lambda>n. 7200000000) two_agent_hub =
     (Some OtherException,
      two_agent_hub\<lparr>trace := trace two_agent_hub @
        [Dispatch (TimeoutAlert ''a'' ''1970-01-01 00:00:00'' 2)]\<rparr>) \<and>
   start network_down_world [\<lambda>n. 7200000000, \<lambda>n. 7500000000] two_agent_hub =
     start network_down_world [\<lambda>n. 7500000000]
       (two_agent_hub\<lparr>trace := trace two_agent_hub @
          [Dispatch (TimeoutAlert ''a'' ''1970-01-01 00:00:00'' 2)]\<rparr>)"
    by blast
  moreover from sweep_stops_and_loop_goes_on
    [where W = slack_down_world and c = "\<lambda>n. 7200000000" and n = "''a''"
       and l = "Some ''1970-01-01 00:00:00''" and k = "Some 1" and st = "''success''"
       and a = "TimeoutAlert ''a'' ''1970-01-01 00:00:00'' 2"
       and rest = "[(''b'', Some ''1970-01-01 00:00:00'', Some 1, ''success'')]"
       and g = two_agent_hub]
    b1 b2
  have "check_rows slack_down_world (\<lambda>n. 7200000000)
     ((''a'', Some ''1970-01-01 00:00:00'', Some 1, ''success'') #
        [(''b'', Some ''1970-01-01 00:00:00'', Some 1, ''success'')]) two_agent_hub =
     check_rows slack_down_world (\<lambda>n. 7200000000)
       [(''b'', Some ''1970-01-01 00:00:00'', Some 1, ''success'')]
       (commit (update_stale ''a'' (two_agent_hub\<lparr>trace := trace two_agent_hub @
          [Dispatch (TimeoutAlert ''a'' ''1970-01-01 00:00:00'' 2)]\<rparr>)))"
    by blast
  ultimately show ?thesis by simp
qed

text \<open>
  C7 as stated fails. With no network, the dispatch for \<open>a\<close>, the first
  overdue row, raises; the sweep ends there, and \<open>b\<close>, the second row, is
  not evaluated in that tick although it is overdue: nothing is dispatched
  for it and its status stays \<open>success\<close>.
\<close>

theorem sweep_isolation_counterexample:
  "select_agents two_agent_hub =
     [(''a'', Some ''1970-01-01 00:00:00'', Some 1, ''success''),
      (''b'', Some ''1970-01-01 00:00:00'', Some 1, ''success'')] \<and>
   due_alert network_down_world 7200000000
     (''b'', Some ''1970-01-01 00:00:00'', Some 1, ''success'') =
     Some (TimeoutAlert ''b'' ''1970-01-01 00:00:00'' 2) \<and>
   fst (check_all_agents network_down_world (\<lambda>n. 7200000000) two_agent_hub) =
     Some OtherException \<and>
   alerts_of (new_events two_agent_hub
     (snd (check_all_agents network_down_world (\<lambda>n. 7200000000) two_agent_hub))) =
     [TimeoutAlert ''a'' ''1970-01-01 00:00:00'' 2] \<and>
   map status (agents
     (snd (check_all_agents network_down_world (\<lambda>n. 7200000000) two_agent_hub))) =
     [''success'', ''success'']"
  by (simp add: two_agent_hub_eq sweep_defs due_alert_def network_down_world_def
      example_world_def)

text \<open>
  C10. An agent whose stored \<open>last_heartbeat\<close> is NULL, empty or not ISO
  text is skipped by every tick, whatever the clocks read: its rows stay
  as they are (so it is never marked stale), no alert is dispatched for
  it, and the evaluation of its row raises nothing and changes nothing.
\<close>

theorem unusable_heartbeat_is_skipped:
  assumes "\<forall>r \<in> set (agents h). name r = n \<longrightarrow> unusable W (last_heartbeat r)"
  shows "filter (\<lambda>r. name r = n) (agents (start W clocks h)) = filter (\<lambda>r. name r = n) (agents h) \<and>
         (\<forall>a \<in> set (alerts_of (new_events h (start W clocks h))). alert_agent a \<noteq> n) \<and>
         (\<forall>r \<in> set (agents h). name r = n \<longrightarrow>
            check_agent W now (name r, last_heartbeat r, expected_interval_hours r, status r) g
              = (None, g))"
proof -
  from start_frame [OF assms, of clocks]
  obtain evs where f: "filter (\<lambda>r. name r = n) (agents (start W clocks h)) =
      filter (\<lambda>r. name r = n) (agents h)"
    and t: "trace (start W clocks h) = trace h @ evs"
    and a: "\<forall>a \<in> set (alerts_of evs). alert_agent a \<noteq> n"
    by blast
  have "new_events h (start W clocks h) = evs" using t by (simp add: new_events_def)
  with f a assms show ?thesis by (simp add: check_agent_unusable)
qed

theorem unusable_heartbeat_is_skipped_witness:
  "filter (\<lambda>r. name r = ''g'')
     (agents (start example_world [\<lambda>n. 7200000000, \<lambda>n. 7500000000] unusable_hub)) =
     filter (\<lambda>r. name r = ''g'') (agents unusable_hub) \<and>
   list_all (\<lambda>a. alert_agent a \<noteq> ''g'')
     (alerts_of (new_events unusable_hub
        (start example_world [\<lambda>n. 7200000000, \<lambda>n. 7500000000] unusable_hub))) \<and>
   check_agent example_world 7200000000 (''g'', Some ''yesterday'', Some 1, ''success'')
     unusable_hub = (None, unusable_hub)"
proof -
  have a: "\<forall>r \<in> set (agents unusable_hub). name r = ''g'' \<longrightarrow>
      unusable example_world (last_heartbeat r)"
    by (simp add: unusable_hub_def unusable_def example_world_def)
  have m: "hd (agents unusable_hub) \<in> set (agents unusable_hub)"
    "name (hd (agents unusable_hub)) = ''g''"
    "last_heartbeat (hd (agents unusable_hub)) = Some ''yesterday''"
    "expected_interval_hours (hd (agents unusable_hub)) = Some 1"
    "status (hd (agents unusable_hub)) = ''success''"
    by (simp_all add: unusable_hub_def)
  from unusable_heartbeat_is_skipped [OF a, of "[\<lambda>n. 7200000000, \<lambda>n. 7500000000]"
      7200000000 unusable_hub] m
  show ?thesis by (auto simp: list_all_iff)
qed

section \<open>Runs from the empty database\<close>

text \<open>
  C8. In every state reached from the empty database by heartbeat
  requests and sweeps, every agent row has status \<open>unknown\<close> if and only
  if its \<open>last_heartbeat\<close> is NULL.
\<close>

theorem unknown_iff_no_heartbeat:
  "\<forall>r \<in> set (agents (run ops init_db)). (status r = ''unknown'') = (last_heartbeat r = None)"
proof -
  have "registry_ok init_db" by (simp add: registry_ok_def init_db_def)
  from registry_ok_run [OF this, of ops] show ?thesis by (simp add: registry_ok_def)
qed

theorem unknown_iff_no_heartbeat_witness:
  "agents (run [Heartbeat example_world 0 0 (example_report ''a'' ''success''),
                Sweep example_world (\<lambda>n. 7200000000)] init_db) \<noteq> [] \<and>
   (status (hd (agents (run [Heartbeat example_world 0 0 (example_report ''a'' ''success''),
                Sweep example_world (\<lambda>n. 7200000000)] init_db))) = ''unknown'') =
   (last_heartbeat (hd (agents (run [Heartbeat example_world 0 0 (example_report ''a'' ''success''),
                Sweep example_world (\<lambda>n. 7200000000)] init_db))) = None)"
proof -
  let ?H = "run [Heartbeat example_world 0 0 (example_report ''a'' ''success''),
                Sweep example_world (\<lambda>n. 7200000000)] init_db"
  have ne: "agents ?H \<noteq> []"
    using fresh_tick1 by (simp add: fresh_hub_def watchdog_tick_def)
  then have "hd (agents ?H) \<in> set (agents ?H)" by simp
  with unknown_iff_no_heartbeat [of "[Heartbeat example_world 0 0 (example_report ''a'' ''success''),
                Sweep example_world (\<lambda>n. 7200000000)]"] ne
  show ?thesis by blast
qed

end
